theory Spec2Isabelle
  imports Complex_Main "HOL-Library.Word"
begin

section \<open>Python values used by the extension\<close>

text \<open>
  A Python \<^verbatim>\<open>str\<close> is a sequence of Unicode code points (lone surrogates
  included), so it is a list of code point numbers here; \<^verbatim>\<open>bytes\<close> is a list of octets.
  \<^verbatim>\<open>time.time()\<close> returns seconds since the epoch as a double; the model reads it as
  the real number the double stands for, and every clock reading is an argument of the
  operation that reads it. The model subtracts two readings exactly, where the code's
  subtraction of doubles rounds to the nearest double. The two agree when the difference
  is itself a double: for readings \<open>0 < t0 \<le> t1 \<le> 2 * t0\<close> it always is, and so it is
  when \<open>t0\<close> is zero. Rounding is monotone, so an exact difference at or above a bound
  that is a double (5, 30) is rounded to a value at or above that bound, and a difference
  that is not positive stays so. An exact difference just below the bound can be rounded
  up to it when the earlier reading is below the bound (\<^verbatim>\<open>5.1 - 0.1 == 5.0\<close>). The time the
  client records for its last connection attempt is \<^verbatim>\<open>0.0\<close> or a reading at which an attempt
  was not suppressed, which is at least 30, so the timer's test is not affected. A cache
  timestamp is any reading, and the statement that needs the cache's test to be true
  assumes a timestamp that is not below the TTL.
\<close>

type_synonym codepoint = nat
type_synonym pystr = "codepoint list"
type_synonym byte = "8 word"
type_synonym bytes = "byte list"
type_synonym time = real

definition ascii :: "string \<Rightarrow> pystr" where
  "ascii s = map of_char s"

section \<open>Exceptions\<close>

text \<open>
  The exceptions that can arise in the client. \<^verbatim>\<open>socket.timeout\<close>, \<^verbatim>\<open>socket.error\<close> and
  \<^verbatim>\<open>BrokenPipeError\<close> are \<^verbatim>\<open>OSError\<close> or subclasses of it, so every error of the operating
  system is an \<open>OSError\<close> of some kind. \<^verbatim>\<open>UnicodeEncodeError\<close> (a \<^verbatim>\<open>ValueError\<close>) and
  \<^verbatim>\<open>AttributeError\<close> are not.
\<close>

datatype oserror = SocketTimeout | BrokenPipeError | ConnectionRefusedError | OtherOSError

datatype exn = OSError oserror | UnicodeEncodeError | AttributeError

section \<open>String and bytes methods\<close>

text \<open>
  \<^verbatim>\<open>str.encode('utf-8')\<close> (strict): a surrogate code point cannot be encoded and raises
  \<^verbatim>\<open>UnicodeEncodeError\<close>. (The code points of a Python string are below \<open>0x110000\<close>, so
  the last branch is the four-byte form.)
\<close>

definition utf8_encode_cp :: "codepoint \<Rightarrow> bytes option" where
  "utf8_encode_cp c =
     (if c < 0x80 then Some [of_nat c]
      else if c < 0x800 then Some [of_nat (0xC0 + c div 64), of_nat (0x80 + c mod 64)]
      else if c < 0x10000 then
        (if 0xD800 \<le> c \<and> c \<le> 0xDFFF then None
         else Some [of_nat (0xE0 + c div 4096), of_nat (0x80 + c div 64 mod 64),
                    of_nat (0x80 + c mod 64)])
      else Some [of_nat (0xF0 + c div 262144), of_nat (0x80 + c div 4096 mod 64),
                 of_nat (0x80 + c div 64 mod 64), of_nat (0x80 + c mod 64)])"

fun utf8_encode :: "pystr \<Rightarrow> exn + bytes" where
  "utf8_encode [] = Inr []"
| "utf8_encode (c # cs) =
     (case utf8_encode_cp c of
        None \<Rightarrow> Inl UnicodeEncodeError
      | Some b \<Rightarrow> (case utf8_encode cs of Inl e \<Rightarrow> Inl e | Inr bs \<Rightarrow> Inr (b @ bs)))"

text \<open>
  \<^verbatim>\<open>bytes.decode('utf-8', errors='ignore')\<close>: one step looks at the lead byte \<open>ch\<close> and
  the bytes after it and yields a code point, or none, with the number of bytes to pass
  over (an invalid lead byte: one; an invalid continuation: the bytes before it; a
  sequence cut off by the end of the data: all that is left).
\<close>

definition is_continuation :: "byte \<Rightarrow> bool" where
  "is_continuation b = (0x80 \<le> b \<and> b < 0xC0)"

definition utf8_decode_step :: "byte \<Rightarrow> bytes \<Rightarrow> codepoint option \<times> nat" where
  "utf8_decode_step ch rest =
     (if ch < 0x80 then (Some (unat ch), 1)
      else if ch < 0xC2 then (None, 1)
      else if ch < 0xE0 then
        (case rest of
           [] \<Rightarrow> (None, 1)
         | ch2 # r2 \<Rightarrow>
             if is_continuation ch2
             then (Some ((unat ch - 0xC0) * 64 + (unat ch2 - 0x80)), 2)
             else (None, 1))
      else if ch < 0xF0 then
        (case rest of
           [] \<Rightarrow> (None, 1)
         | ch2 # r2 \<Rightarrow>
             if is_continuation ch2 \<and> \<not> (if ch2 < 0xA0 then ch = 0xE0 else ch = 0xED)
             then (case r2 of
                     [] \<Rightarrow> (None, 2)
                   | ch3 # r3 \<Rightarrow>
                       if is_continuation ch3
                       then (Some ((unat ch - 0xE0) * 4096 + (unat ch2 - 0x80) * 64
                                    + (unat ch3 - 0x80)), 3)
                       else (None, 2))
             else (None, 1))
      else if ch < 0xF5 then
        (case rest of
           [] \<Rightarrow> (None, 1)
         | ch2 # r2 \<Rightarrow>
             if is_continuation ch2 \<and> \<not> (if ch2 < 0x90 then ch = 0xF0 else ch = 0xF4)
             then (case r2 of
                     [] \<Rightarrow> (None, 2)
                   | ch3 # r3 \<Rightarrow>
                       if is_continuation ch3
                       then (case r3 of
                               [] \<Rightarrow> (None, 3)
                             | ch4 # r4 \<Rightarrow>
                                 if is_continuation ch4
                                 then (Some ((unat ch - 0xF0) * 262144 + (unat ch2 - 0x80) * 4096
                                        + (unat ch3 - 0x80) * 64 + (unat ch4 - 0x80)), 4)
                                 else (None, 3))
                       else (None, 2))
             else (None, 1))
      else (None, 1))"

text \<open>
  The decoder's loop: \<open>utf8_decode_from k\<close> still has \<open>k\<close> bytes to pass over before it
  decodes the next sequence.
\<close>

fun utf8_decode_from :: "nat \<Rightarrow> bytes \<Rightarrow> pystr" where
  "utf8_decode_from skip [] = []"
| "utf8_decode_from (Suc k) (ch # rest) = utf8_decode_from k rest"
| "utf8_decode_from 0 (ch # rest) =
     (case utf8_decode_step ch rest of
        (None, n) \<Rightarrow> utf8_decode_from (n - 1) rest
      | (Some c, n) \<Rightarrow> c # utf8_decode_from (n - 1) rest)"

definition utf8_decode_ignore :: "bytes \<Rightarrow> pystr" where
  "utf8_decode_ignore bs = utf8_decode_from 0 bs"

text \<open>
  \<^verbatim>\<open>str.splitlines()\<close>: lines end at any Unicode line boundary, \<^verbatim>\<open>\\r\\n\<close> counts as one,
  the terminators are dropped and no empty line follows a final terminator.
\<close>

definition is_linebreak :: "codepoint \<Rightarrow> bool" where
  "is_linebreak c = (c \<in> {0x0A, 0x0B, 0x0C, 0x0D, 0x1C, 0x1D, 0x1E, 0x85, 0x2028, 0x2029})"

fun splitlines_from :: "pystr \<Rightarrow> pystr \<Rightarrow> pystr list" where
  "splitlines_from cur [] = (if cur = [] then [] else [cur])"
| "splitlines_from cur [c] =
     (if is_linebreak c then [cur] else [cur @ [c]])"
| "splitlines_from cur (c # d # cs) =
     (if c = 0x0D \<and> d = 0x0A then cur # splitlines_from [] cs
      else if is_linebreak c then cur # splitlines_from [] (d # cs)
      else splitlines_from (cur @ [c]) (d # cs))"

definition splitlines :: "pystr \<Rightarrow> pystr list" where
  "splitlines s = splitlines_from [] s"

definition startswith :: "pystr \<Rightarrow> pystr \<Rightarrow> bool" where
  "startswith s p = (take (length p) s = p)"

definition endswith :: "pystr \<Rightarrow> pystr \<Rightarrow> bool" where
  "endswith s p = (length p \<le> length s \<and> drop (length s - length p) s = p)"

text \<open>
  \<^verbatim>\<open>s.split(sep, maxsplit)\<close> for a one-character separator: at most \<open>maxsplit\<close> cuts, so
  at most \<open>maxsplit + 1\<close> parts.
\<close>

fun split_sep :: "codepoint \<Rightarrow> nat \<Rightarrow> pystr \<Rightarrow> pystr list" where
  "split_sep sep 0 s = [s]"
| "split_sep sep (Suc n) s =
     (if sep \<in> set s
      then takeWhile (\<lambda>c. c \<noteq> sep) s # split_sep sep n (tl (dropWhile (\<lambda>c. c \<noteq> sep) s))
      else [s])"

text \<open>
  The loop of \<^verbatim>\<open>query_status\<close> over the response lines: the first line that starts with
  \<^verbatim>\<open>STATUS:\<close> and splits into three parts decides; its second part is returned.
\<close>

fun parse_status :: "pystr list \<Rightarrow> pystr option" where
  "parse_status [] = None"
| "parse_status (line # lines) =
     (if startswith line (ascii ''STATUS:'')
      then (let parts = split_sep 0x3A 2 line
            in if 3 \<le> length parts then Some (parts ! 1) else parse_status lines)
      else parse_status lines)"

text \<open>\<^verbatim>\<open>str(n)\<close> for a non-negative integer, and \<^verbatim>\<open>os.path.join\<close> of \<^verbatim>\<open>posixpath\<close>.\<close>

fun str_of_nat :: "nat \<Rightarrow> pystr" where
  "str_of_nat n = (if n < 10 then [48 + n] else str_of_nat (n div 10) @ [48 + n mod 10])"

declare str_of_nat.simps [simp del]

fun path_join :: "pystr \<Rightarrow> pystr list \<Rightarrow> pystr" where
  "path_join a [] = a"
| "path_join a (b # bs) =
     path_join (if startswith b (ascii ''/'') then b
                else if a = [] \<or> endswith a (ascii ''/'') then a @ b
                else a @ ascii ''/'' @ b) bs"

section \<open>AeroCloudStatusCache\<close>

text \<open>
  \<^verbatim>\<open>self._cache: Dict[str, tuple]\<close> maps a path to \<^verbatim>\<open>(status, timestamp)\<close>;
  \<^verbatim>\<open>self._ttl\<close> is fixed by the constructor. The lock serialises the methods, so each
  method is one atomic state transformer.
\<close>

record status_cache =
  cache :: "pystr \<rightharpoonup> (pystr \<times> time)"
  ttl :: int

definition cache_init :: "int \<Rightarrow> status_cache" where
  "cache_init ttl_seconds = \<lparr>cache = Map.empty, ttl = ttl_seconds\<rparr>"

text \<open>
  \<^verbatim>\<open>get\<close>: the clock is read only when the path is in the dictionary; a fresh entry is
  returned, a stale one is deleted and \<^verbatim>\<open>None\<close> is returned. The age \<open>now - timestamp\<close>
  is the exact difference of the two readings; it is the code's age whenever the
  subtraction of the doubles is exact.
\<close>

definition cache_get :: "time \<Rightarrow> status_cache \<Rightarrow> pystr \<Rightarrow> pystr option \<times> status_cache" where
  "cache_get now c path =
     (case cache c path of
        None \<Rightarrow> (None, c)
      | Some (status, timestamp) \<Rightarrow>
          if now - timestamp < real_of_int (ttl c) then (Some status, c)
          else (None, c\<lparr>cache := (cache c)(path := None)\<rparr>))"

definition cache_set :: "time \<Rightarrow> status_cache \<Rightarrow> pystr \<Rightarrow> pystr \<Rightarrow> status_cache" where
  "cache_set now c path status = c\<lparr>cache := (cache c)(path \<mapsto> (status, now))\<rparr>"

text \<open>A history of cache calls, each with the clock reading it sees.\<close>

datatype cache_op = Get time pystr | Set time pystr pystr

fun cache_step :: "status_cache \<Rightarrow> cache_op \<Rightarrow> status_cache" where
  "cache_step c (Get now path) = snd (cache_get now c path)"
| "cache_step c (Set now path status) = cache_set now c path status"

fun cache_run :: "status_cache \<Rightarrow> cache_op list \<Rightarrow> status_cache" where
  "cache_run c [] = c"
| "cache_run c (x # xs) = cache_run (cache_step c x) xs"

fun sets_path :: "pystr \<Rightarrow> cache_op \<Rightarrow> bool" where
  "sets_path p (Get now path) = False"
| "sets_path p (Set now path status) = (path = p)"

fun no_set_of :: "pystr \<Rightarrow> cache_op list \<Rightarrow> bool" where
  "no_set_of p [] = True"
| "no_set_of p (x # xs) = (\<not> sets_path p x \<and> no_set_of p xs)"

section \<open>AeroCloudDaemonClient\<close>

text \<open>
  The client's fields: the socket object it holds (a handle, or \<^verbatim>\<open>None\<close>), the socket
  path fixed by the constructor, and the clock reading of the last connection attempt
  that was not suppressed. The lock makes \<^verbatim>\<open>query_status\<close> one atomic step.
\<close>

type_synonym handle = nat

record daemon_client =
  socket :: "handle option"
  socket_path :: "pystr option"
  last_connect_attempt :: time

definition SOCKET_TIMEOUT :: real where
  "SOCKET_TIMEOUT = 1 / 10"

definition RECONNECT_INTERVAL :: real where
  "RECONNECT_INTERVAL = 30"

text \<open>
  What the process sees when the client is constructed: the value of
  \<^verbatim>\<open>XDG_RUNTIME_DIR\<close> (if set) and the user id.
\<close>

record proc_env =
  xdg_runtime_dir :: "pystr option"
  uid :: nat

definition find_socket_path :: "proc_env \<Rightarrow> pystr" where
  "find_socket_path pe =
     (case xdg_runtime_dir pe of
        None \<Rightarrow> ascii ''/tmp/aerocloud-'' @ str_of_nat (uid pe) @ ascii ''/socket''
      | Some runtime_dir \<Rightarrow>
          if runtime_dir \<noteq> [] then path_join runtime_dir [ascii ''aerocloud'', ascii ''socket'']
          else ascii ''/tmp/aerocloud-'' @ str_of_nat (uid pe) @ ascii ''/socket'')"

definition client_init :: "proc_env \<Rightarrow> daemon_client" where
  "client_init pe =
     \<lparr>socket = None, socket_path = Some (find_socket_path pe), last_connect_attempt = 0\<rparr>"

text \<open>
  What the operating system does during one call: the clock reading, which paths exist,
  and the outcome of each socket operation (an \<open>oserror\<close> when it raises). Every
  operation the client performs is recorded, in order, as an event.
\<close>

record os_env =
  clock :: time
  path_exists :: "pystr \<Rightarrow> bool"
  socket_new :: "oserror + handle"
  connect_result :: "handle \<Rightarrow> pystr \<Rightarrow> oserror option"
  sendall_result :: "handle \<Rightarrow> bytes \<Rightarrow> oserror option"
  recv_result :: "handle \<Rightarrow> oserror + bytes"
  close_result :: "handle \<Rightarrow> oserror option"

datatype event =
    TimeRead
  | PathExists pystr
  | SocketNew
  | SetTimeout handle real
  | Connect handle pystr
  | SendAll handle bytes
  | Recv handle nat
  | Close handle

text \<open>
  \<^verbatim>\<open>self._socket.close()\<close> inside \<^verbatim>\<open>try ... except (socket.error, OSError): pass\<close>:
  whether the close raises or not, the client goes on in the same way.
\<close>

definition close_quietly :: "os_env \<Rightarrow> handle \<Rightarrow> event list" where
  "close_quietly env h = (case close_result env h of None \<Rightarrow> [Close h] | Some e \<Rightarrow> [Close h])"

text \<open>\<^verbatim>\<open>_connect\<close>: returns whether the client is connected, the client and the events.\<close>

definition connect :: "os_env \<Rightarrow> daemon_client \<Rightarrow> bool \<times> daemon_client \<times> event list" where
  "connect env c =
     (let now = clock env in
      if now - last_connect_attempt c < RECONNECT_INTERVAL
      then (socket c \<noteq> None, c, [TimeRead])
      else
        let c1 = c\<lparr>last_connect_attempt := now\<rparr>;
            ev1 = (case socket c1 of None \<Rightarrow> [] | Some h \<Rightarrow> close_quietly env h);
            c2 = (case socket c1 of None \<Rightarrow> c1 | Some h \<Rightarrow> c1\<lparr>socket := None\<rparr>)
        in
          case socket_path c2 of
            None \<Rightarrow> (False, c2, TimeRead # ev1)
          | Some p \<Rightarrow>
              if p = [] then (False, c2, TimeRead # ev1)
              else if \<not> path_exists env p then (False, c2, TimeRead # ev1 @ [PathExists p])
              else
                (case socket_new env of
                   Inl e \<Rightarrow> (False, c2, TimeRead # ev1 @ [PathExists p, SocketNew])
                 | Inr sock \<Rightarrow>
                     (case connect_result env sock p of
                        Some e \<Rightarrow>
                          (False, c2,
                           TimeRead # ev1 @ [PathExists p, SocketNew,
                             SetTimeout sock SOCKET_TIMEOUT, Connect sock p])
                      | None \<Rightarrow>
                          (True, c2\<lparr>socket := Some sock\<rparr>,
                           TimeRead # ev1 @ [PathExists p, SocketNew,
                             SetTimeout sock SOCKET_TIMEOUT, Connect sock p]))))"

text \<open>The request text, and the \<^verbatim>\<open>except\<close> clause of \<^verbatim>\<open>query_status\<close>.\<close>

definition request :: "pystr \<Rightarrow> pystr" where
  "request file_path =
     ascii ''RETRIEVE_FILE_STATUS'' @ [0x0A] @ ascii ''path'' @ [0x09] @ file_path @ [0x0A]
       @ ascii ''done'' @ [0x0A]"

fun handled :: "exn \<Rightarrow> bool" where
  "handled (OSError e) = True"
| "handled UnicodeEncodeError = False"
| "handled AttributeError = False"

text \<open>
  The body of the \<^verbatim>\<open>try\<close> block on the socket \<open>h\<close>: the value returned or the exception
  raised, with the events up to there. \<^verbatim>\<open>recv(1024)\<close> yields at most 1024 bytes.
\<close>

definition query_body :: "os_env \<Rightarrow> handle \<Rightarrow> pystr \<Rightarrow> (exn + pystr option) \<times> event list" where
  "query_body env h file_path =
     (case utf8_encode (request file_path) of
        Inl e \<Rightarrow> (Inl e, [])
      | Inr data \<Rightarrow>
          (case sendall_result env h data of
             Some e \<Rightarrow> (Inl (OSError e), [SendAll h data])
           | None \<Rightarrow>
               (case recv_result env h of
                  Inl e \<Rightarrow> (Inl (OSError e), [SendAll h data, Recv h 1024])
                | Inr raw \<Rightarrow>
                    (Inr (parse_status (splitlines (utf8_decode_ignore (take 1024 raw)))),
                     [SendAll h data, Recv h 1024]))))"

text \<open>
  \<^verbatim>\<open>query_status\<close>: the result (\<open>Inr\<close> the returned value, \<open>Inl\<close> an exception that leaves
  the method), the client afterwards and the events of the call. In
  \<^verbatim>\<open>not self._socket and not self._connect()\<close> the method \<^verbatim>\<open>_connect\<close> is called only when
  there is no socket. An exception of the \<^verbatim>\<open>try\<close> block that the \<^verbatim>\<open>except\<close> clause matches
  closes and drops the socket and gives \<^verbatim>\<open>None\<close>; any other exception leaves the method.
\<close>

definition query_status ::
  "os_env \<Rightarrow> daemon_client \<Rightarrow> pystr \<Rightarrow> (exn + pystr option) \<times> daemon_client \<times> event list" where
  "query_status env c file_path =
     (case (if socket c = None then connect env c else (True, c, [])) of
        (is_connected, c1, ev1) \<Rightarrow>
          if \<not> is_connected then (Inr None, c1, ev1)
          else
            (case socket c1 of
               None \<Rightarrow> (Inl AttributeError, c1, ev1)
             | Some h \<Rightarrow>
                 (case query_body env h file_path of
                    (Inr r, ev) \<Rightarrow> (Inr r, c1, ev1 @ ev)
                  | (Inl e, ev) \<Rightarrow>
                      if handled e
                      then (Inr None, c1\<lparr>socket := None\<rparr>, ev1 @ ev @ close_quietly env h)
                      else (Inl e, c1, ev1 @ ev))))"

text \<open>A series of calls, each with the environment it runs in and its file path.\<close>

fun run_queries ::
  "daemon_client \<Rightarrow> (os_env \<times> pystr) list \<Rightarrow>
     (exn + pystr option) list \<times> daemon_client \<times> event list" where
  "run_queries c [] = ([], c, [])"
| "run_queries c ((env, file_path) # qs) =
     (case query_status env c file_path of
        (r, c1, ev) \<Rightarrow>
          (case run_queries c1 qs of
             (rs, c2, evs) \<Rightarrow> (r # rs, c2, ev @ evs)))"

section \<open>Vocabulary of the properties\<close>

text \<open>
  The test and the result of the loop body of \<^verbatim>\<open>query_status\<close> on one line: the line is
  accepted when it starts with \<^verbatim>\<open>STATUS:\<close> and \<^verbatim>\<open>split(':', 2)\<close> gives three parts, and
  its status code is the second part.
\<close>

definition yields_status :: "pystr \<Rightarrow> bool" where
  "yields_status line =
     (startswith line (ascii ''STATUS:'') \<and> 3 \<le> length (split_sep 0x3A 2 line))"

definition status_code :: "pystr \<Rightarrow> pystr" where
  "status_code line = split_sep 0x3A 2 line ! 1"

text \<open>The code points that \<^verbatim>\<open>encode('utf-8')\<close> refuses.\<close>

definition is_surrogate :: "codepoint \<Rightarrow> bool" where
  "is_surrogate c = (0xD800 \<le> c \<and> c \<le> 0xDFFF)"

text \<open>
  The events of a connection attempt (the clock of the reconnect timer, the check of the
  socket path, the creation and connection of a socket) and the events on one socket
  that is already held.
\<close>

fun is_connect_event :: "event \<Rightarrow> bool" where
  "is_connect_event TimeRead = True"
| "is_connect_event (PathExists p) = True"
| "is_connect_event SocketNew = True"
| "is_connect_event (SetTimeout h t) = True"
| "is_connect_event (Connect h p) = True"
| "is_connect_event (SendAll h b) = False"
| "is_connect_event (Recv h n) = False"
| "is_connect_event (Close h) = False"

fun on_handle :: "handle \<Rightarrow> event \<Rightarrow> bool" where
  "on_handle h (SendAll h' b) = (h' = h)"
| "on_handle h (Recv h' n) = (h' = h)"
| "on_handle h (Close h') = (h' = h)"
| "on_handle h e = False"

text \<open>Calls whose clock readings are less than the reconnect interval after \<open>t0\<close>.\<close>

fun within_window :: "time \<Rightarrow> (os_env \<times> pystr) list \<Rightarrow> bool" where
  "within_window t0 [] = True"
| "within_window t0 ((env, p) # qs) =
     (clock env - t0 < RECONNECT_INTERVAL \<and> within_window t0 qs)"

section \<open>Sample environments and inputs\<close>

text \<open>
  Concrete inputs for the worked examples: a daemon that accepts a connection and
  answers every request with the same bytes, a machine where the socket file is missing
  and nothing answers, a client built in a session with \<^verbatim>\<open>XDG_RUNTIME_DIR\<close> set, and the
  same client holding the socket \<open>7\<close>.
\<close>

definition ascii_bytes :: "string \<Rightarrow> bytes" where
  "ascii_bytes s = map of_char s"

definition daemon_up :: "time \<Rightarrow> bytes \<Rightarrow> os_env" where
  "daemon_up t reply =
     \<lparr>clock = t, path_exists = (\<lambda>p. True), socket_new = Inr 7,
      connect_result = (\<lambda>h p. None), sendall_result = (\<lambda>h b. None),
      recv_result = (\<lambda>h. Inr reply), close_result = (\<lambda>h. None)\<rparr>"

definition daemon_absent :: "time \<Rightarrow> os_env" where
  "daemon_absent t =
     \<lparr>clock = t, path_exists = (\<lambda>p. False), socket_new = Inr 7,
      connect_result = (\<lambda>h p. Some ConnectionRefusedError),
      sendall_result = (\<lambda>h b. Some BrokenPipeError),
      recv_result = (\<lambda>h. Inl SocketTimeout), close_result = (\<lambda>h. None)\<rparr>"

definition sample_proc :: proc_env where
  "sample_proc = \<lparr>xdg_runtime_dir = Some (ascii ''/run/user/1000''), uid = 1000\<rparr>"

definition connected_client :: daemon_client where
  "connected_client = (client_init sample_proc)\<lparr>socket := Some 7, last_connect_attempt := 990\<rparr>"

definition ok_reply :: bytes where
  "ok_reply = ascii_bytes ''STATUS:OK:synced'' @ [0x0A]"

definition two_status_reply :: bytes where
  "two_status_reply = ascii_bytes ''STATUS:SYNC:busy'' @ [0x0A] @ ascii_bytes ''STATUS:OK:synced'' @ [0x0A]"

definition garbage_reply :: bytes where
  "garbage_reply = [0xFF, 0xFE] @ ascii_bytes ''hello'' @ [0x0A] @ ascii_bytes ''STATUS:OK'' @ [0x0A]"

definition noisy_reply :: bytes where
  "noisy_reply = ascii_bytes ''hello'' @ [0x0A] @ ascii_bytes ''STATUS:OK'' @ [0x0A]
     @ ascii_bytes ''STATUS:NEW:x:y'' @ [0x0D, 0x0A] @ ascii_bytes ''STATUS:OK:synced'' @ [0x0A]"

definition sample_request :: bytes where
  "sample_request = ascii_bytes ''RETRIEVE_FILE_STATUS'' @ [0x0A] @ ascii_bytes ''path'' @ [0x09]
     @ ascii_bytes ''/a'' @ [0x0A] @ ascii_bytes ''done'' @ [0x0A]"

section \<open>Properties of the cache\<close>

lemma cache_get_ttl: "ttl (snd (cache_get now c path)) = ttl c"
  by (simp add: cache_get_def split: option.split prod.split)

lemma cache_step_ttl: "ttl (cache_step c x) = ttl c"
  by (cases x) (simp_all add: cache_get_ttl cache_set_def)

lemma cache_run_ttl: "ttl (cache_run c xs) = ttl c"
  by (induction xs arbitrary: c) (simp_all add: cache_step_ttl)

lemma cache_get_other:
  "p \<noteq> q \<Longrightarrow> cache (snd (cache_get now c p)) q = cache c q"
  by (simp add: cache_get_def split: option.split prod.split)

lemma cache_get_same:
  "cache (snd (cache_get now c p)) p = None \<or> cache (snd (cache_get now c p)) p = cache c p"
  by (simp add: cache_get_def split: option.split prod.split)

text \<open>
  Between two writes of a path its entry can only disappear: after any calls that do not
  set \<open>p\<close>, the entry of \<open>p\<close> is the one the run started with, or none.
\<close>

lemma cache_step_entry:
  assumes "\<not> sets_path p x"
    and "cache c p = None \<or> cache c p = Some e"
  shows "cache (cache_step c x) p = None \<or> cache (cache_step c x) p = Some e"
proof (cases x)
  case (Get now q)
  show ?thesis
  proof (cases "q = p")
    case True
    with Get assms(2) cache_get_same [of now c p] show ?thesis by auto
  next
    case False
    with Get assms(2) show ?thesis by (simp add: cache_get_other)
  qed
next
  case (Set now q s)
  with assms show ?thesis by (simp add: cache_set_def)
qed

lemma cache_run_entry:
  "no_set_of p xs \<Longrightarrow> cache c p = None \<or> cache c p = Some e \<Longrightarrow>
   cache (cache_run c xs) p = None \<or> cache (cache_run c xs) p = Some e"
proof (induction xs arbitrary: c)
  case Nil
  then show ?case by simp
next
  case (Cons x xs)
  from Cons.prems have "cache (cache_step c x) p = None \<or> cache (cache_step c x) p = Some e"
    by (simp add: cache_step_entry)
  with Cons.IH [of "cache_step c x"] Cons.prems(1) show ?case by simp
qed

text \<open>
  Claim C3. For all paths \<open>P\<close> and statuses \<open>S\<close>: \<open>set(P, S)\<close> at clock reading \<open>t0\<close>
  followed at once by \<open>get(P)\<close> at a clock reading \<open>t1\<close> with \<open>t1 - t0\<close> below the TTL
  returns \<open>S\<close> (and leaves the cache as \<open>set\<close> left it), for a positive TTL and a
  timestamp \<open>t0\<close> that is not below the TTL. Every reading of a clock that is more than the
  TTL past the epoch is such a timestamp. Under these two hypotheses the code's test is
  the model's: for \<open>t0 \<le> t1\<close> the readings satisfy \<open>t0 \<le> t1 \<le> 2 * t0\<close>, so the
  subtraction of the doubles is exact, and for \<open>t1 < t0\<close> the rounded difference is not
  positive, so it is below the TTL. Without them the rounded difference can reach the TTL
  while the exact one is below it (set at 0.1, get at 5.1, TTL 5), and the code then
  deletes the entry.
\<close>

theorem cache_set_get_within_ttl:
  assumes "0 < ttl c"
    and "real_of_int (ttl c) \<le> t0"
    and "t1 - t0 < real_of_int (ttl c)"
  shows "cache_get t1 (cache_set t0 c P S) P = (Some S, cache_set t0 c P S)"
  using assms by (simp add: cache_get_def cache_set_def)

theorem cache_set_get_within_ttl_witness:
  "0 < ttl (cache_init 5) \<and>
   real_of_int (ttl (cache_init 5)) \<le> 1000 \<and>
   (1004.5 :: real) - 1000 < real_of_int (ttl (cache_init 5)) \<and>
   fst (cache_get 1004.5 (cache_set 1000 (cache_init 5) (ascii ''/home/u/a.txt'') (ascii ''OK''))
          (ascii ''/home/u/a.txt'')) = Some (ascii ''OK'')"
proof -
  have h1: "0 < ttl (cache_init 5)"
    by (simp add: cache_init_def)
  have h2: "real_of_int (ttl (cache_init 5)) \<le> 1000"
    by (simp add: cache_init_def)
  have h3: "(1004.5 :: real) - 1000 < real_of_int (ttl (cache_init 5))"
    by (simp add: cache_init_def)
  from cache_set_get_within_ttl [OF h1 h2 h3, of "ascii ''/home/u/a.txt''" "ascii ''OK''"] h1 h2 h3
  show ?thesis by simp
qed

text \<open>
  Claim C4. If the TTL has elapsed since the last \<open>set(P, _)\<close> (made at clock reading
  \<open>t0\<close> and followed by any calls that do not set \<open>P\<close>), then \<open>get(P)\<close> at \<open>t1\<close> with
  \<open>t1 - t0\<close> at or beyond the TTL returns absent and the cache it leaves has no entry for
  \<open>P\<close>. In any cache state an entry of \<open>P\<close> whose age has reached the TTL is not
  returned: the lookup answers absent and deletes exactly that entry.
\<close>

theorem cache_get_after_ttl:
  "(no_set_of P ops \<and> real_of_int (ttl c) \<le> t1 - t0 \<longrightarrow>
      fst (cache_get t1 (cache_run (cache_set t0 c P S) ops) P) = None \<and>
      cache (snd (cache_get t1 (cache_run (cache_set t0 c P S) ops) P)) P = None) \<and>
   (cache c P = Some (S, t0) \<and> real_of_int (ttl c) \<le> t1 - t0 \<longrightarrow>
      cache_get t1 c P = (None, c\<lparr>cache := (cache c)(P := None)\<rparr>))"
proof (intro conjI impI)
  assume a: "no_set_of P ops \<and> real_of_int (ttl c) \<le> t1 - t0"
  let ?c = "cache_run (cache_set t0 c P S) ops"
  have "cache (cache_set t0 c P S) P = Some (S, t0)"
    by (simp add: cache_set_def)
  with a have e: "cache ?c P = None \<or> cache ?c P = Some (S, t0)"
    using cache_run_entry [of P ops "cache_set t0 c P S" "(S, t0)"] by simp
  have t: "ttl ?c = ttl c"
    by (simp add: cache_run_ttl cache_set_def)
  from e t a show "fst (cache_get t1 ?c P) = None"
    by (auto simp: cache_get_def)
  from e t a show "cache (snd (cache_get t1 ?c P)) P = None"
    by (auto simp: cache_get_def)
next
  assume "cache c P = Some (S, t0) \<and> real_of_int (ttl c) \<le> t1 - t0"
  then show "cache_get t1 c P = (None, c\<lparr>cache := (cache c)(P := None)\<rparr>)"
    by (simp add: cache_get_def)
qed

theorem cache_get_after_ttl_witness:
  "no_set_of (ascii ''/a'') [Get 1001 (ascii ''/b''), Set 1002 (ascii ''/b'') (ascii ''SYNC''),
      Get 1003 (ascii ''/a'')] \<and>
   cache (cache_set 1000 (cache_init 5) (ascii ''/a'') (ascii ''OK'')) (ascii ''/a'')
     = Some (ascii ''OK'', 1000) \<and>
   real_of_int (ttl (cache_set 1000 (cache_init 5) (ascii ''/a'') (ascii ''OK''))) \<le> 1005 - 1000 \<and>
   fst (cache_get 1005
         (cache_run (cache_set 1000 (cache_set 1000 (cache_init 5) (ascii ''/a'') (ascii ''OK''))
                       (ascii ''/a'') (ascii ''OK''))
            [Get 1001 (ascii ''/b''), Set 1002 (ascii ''/b'') (ascii ''SYNC''),
             Get 1003 (ascii ''/a'')])
         (ascii ''/a'')) = None \<and>
   fst (cache_get 1005 (cache_set 1000 (cache_init 5) (ascii ''/a'') (ascii ''OK''))
         (ascii ''/a'')) = None"
proof -
  let ?c = "cache_set 1000 (cache_init 5) (ascii ''/a'') (ascii ''OK'')"
  let ?ops = "[Get 1001 (ascii ''/b''), Set 1002 (ascii ''/b'') (ascii ''SYNC''),
      Get 1003 (ascii ''/a'')]"
  have h1: "no_set_of (ascii ''/a'') ?ops"
    by (simp add: ascii_def)
  have h2: "cache ?c (ascii ''/a'') = Some (ascii ''OK'', 1000)"
    by (simp add: cache_set_def)
  have h3: "real_of_int (ttl ?c) \<le> 1005 - 1000"
    by (simp add: cache_set_def cache_init_def)
  from cache_get_after_ttl [of "ascii ''/a''" ?ops ?c 1005 1000 "ascii ''OK''"] h1 h2 h3
  show ?thesis by simp
qed

text \<open>
  Claim C9. \<open>get(P)\<close> and \<open>set(P, S)\<close> leave the entry of every other path \<open>Q\<close> as it
  was (present or absent, status and timestamp) and never change the TTL; \<open>get(P)\<close> on
  an absent key returns absent and changes nothing.
\<close>

theorem cache_frame:
  "(P \<noteq> Q \<longrightarrow>
      cache (snd (cache_get now c P)) Q = cache c Q \<and>
      cache (cache_set now c P S) Q = cache c Q) \<and>
   ttl (snd (cache_get now c P)) = ttl c \<and>
   ttl (cache_set now c P S) = ttl c \<and>
   (cache c P = None \<longrightarrow> cache_get now c P = (None, c))"
  by (simp add: cache_get_other cache_get_ttl cache_set_def) (simp add: cache_get_def)

theorem cache_frame_witness:
  "ascii ''/a'' \<noteq> ascii ''/b'' \<and>
   cache (cache_set 1000 (cache_init 5) (ascii ''/b'') (ascii ''OK'')) (ascii ''/a'') = None \<and>
   cache (snd (cache_get 1010 (cache_set 1000 (cache_init 5) (ascii ''/b'') (ascii ''OK''))
            (ascii ''/a''))) (ascii ''/b'') = Some (ascii ''OK'', 1000) \<and>
   cache (cache_set 1010 (cache_set 1000 (cache_init 5) (ascii ''/b'') (ascii ''OK''))
            (ascii ''/a'') (ascii ''NEW'')) (ascii ''/b'') = Some (ascii ''OK'', 1000)"
proof -
  let ?c = "cache_set 1000 (cache_init 5) (ascii ''/b'') (ascii ''OK'')"
  have h1: "ascii ''/a'' \<noteq> ascii ''/b''"
    by (simp add: ascii_def)
  have h2: "cache ?c (ascii ''/a'') = None"
    using h1 by (simp add: cache_set_def cache_init_def)
  have v: "cache ?c (ascii ''/b'') = Some (ascii ''OK'', 1000)"
    by (simp add: cache_set_def)
  from cache_frame [of "ascii ''/a''" "ascii ''/b''" 1010 ?c "ascii ''NEW''"] h1 h2 v
  show ?thesis by simp
qed

section \<open>Properties of the string methods\<close>

text \<open>The loop over the lines returns the status code of the first accepted line.\<close>

lemma parse_status_find:
  "parse_status lines =
     (case List.find yields_status lines of None \<Rightarrow> None | Some l \<Rightarrow> Some (status_code l))"
  by (induction lines) (simp_all add: yields_status_def status_code_def Let_def)

lemma parse_status_skip:
  "\<not> list_ex yields_status pre \<Longrightarrow> parse_status (pre @ post) = parse_status post"
  by (induction pre) (simp_all add: yields_status_def Let_def)

text \<open>How \<^verbatim>\<open>split(':', 2)\<close> cuts a line that starts with \<^verbatim>\<open>STATUS:\<close>.\<close>

lemma takeWhile_until: "x \<notin> set xs \<Longrightarrow> takeWhile (\<lambda>c. c \<noteq> x) (xs @ x # ys) = xs"
  by (induction xs) auto

lemma dropWhile_until: "x \<notin> set xs \<Longrightarrow> dropWhile (\<lambda>c. c \<noteq> x) (xs @ x # ys) = x # ys"
  by (induction xs) auto

lemma split_sep_2:
  "split_sep sep 2 s =
     (if sep \<in> set s
      then takeWhile (\<lambda>c. c \<noteq> sep) s #
           (if sep \<in> set (tl (dropWhile (\<lambda>c. c \<noteq> sep) s))
            then [takeWhile (\<lambda>c. c \<noteq> sep) (tl (dropWhile (\<lambda>c. c \<noteq> sep) s)),
                  tl (dropWhile (\<lambda>c. c \<noteq> sep) (tl (dropWhile (\<lambda>c. c \<noteq> sep) s)))]
            else [tl (dropWhile (\<lambda>c. c \<noteq> sep) s)])
      else [s])"
  by (simp add: numeral_2_eq_2)

lemma split_status_line:
  assumes "0x3A \<notin> set code"
  shows "split_sep 0x3A 2 (ascii ''STATUS:'' @ code @ [0x3A] @ extra) = [ascii ''STATUS'', code, extra]"
  using assms by (simp add: numeral_2_eq_2 ascii_def takeWhile_until dropWhile_until)

lemma status_line_yields:
  assumes "0x3A \<notin> set code"
  shows "yields_status (ascii ''STATUS:'' @ code @ [0x3A] @ extra)"
    and "status_code (ascii ''STATUS:'' @ code @ [0x3A] @ extra) = code"
  using split_status_line [OF assms, of extra]
  by (simp_all add: yields_status_def status_code_def startswith_def ascii_def)

lemma short_status_line:
  assumes "0x3A \<notin> set rest"
  shows "split_sep 0x3A 2 (ascii ''STATUS:'' @ rest) = [ascii ''STATUS'', rest]"
  using assms by (simp add: numeral_2_eq_2 ascii_def)

text \<open>
  Encoding fails exactly on surrogates, and only with \<^verbatim>\<open>UnicodeEncodeError\<close>; the fixed
  parts of the request are ASCII, so the request can be encoded when the path can.
\<close>

lemma utf8_encode_surrogate:
  "cp \<in> set s \<Longrightarrow> is_surrogate cp \<Longrightarrow> utf8_encode s = Inl UnicodeEncodeError"
  by (induction s) (auto simp: utf8_encode_cp_def is_surrogate_def split: option.splits sum.splits)

lemma utf8_encode_error: "utf8_encode s = Inl e \<Longrightarrow> e = UnicodeEncodeError"
  by (induction s arbitrary: e) (auto split: option.splits sum.splits)

lemma utf8_encode_ok:
  "list_all (\<lambda>c. \<not> is_surrogate c) s \<Longrightarrow> \<exists>b. utf8_encode s = Inr b"
  by (induction s) (auto simp: utf8_encode_cp_def is_surrogate_def split: option.splits sum.splits)

lemma request_encode_surrogate:
  "cp \<in> set file_path \<Longrightarrow> is_surrogate cp \<Longrightarrow>
   utf8_encode (request file_path) = Inl UnicodeEncodeError"
  by (rule utf8_encode_surrogate [of cp]) (simp_all add: request_def)

lemma request_encodable:
  "list_all (\<lambda>c. \<not> is_surrogate c) file_path \<Longrightarrow> \<exists>data. utf8_encode (request file_path) = Inr data"
  by (rule utf8_encode_ok) (simp add: request_def ascii_def is_surrogate_def)

section \<open>Properties of the client\<close>

text \<open>
  A suppressed connection attempt reads the clock and nothing else; \<^verbatim>\<open>_connect\<close> returns
  true exactly when it leaves the client with a socket.
\<close>

lemma connect_suppressed:
  "clock env - last_connect_attempt c < RECONNECT_INTERVAL \<Longrightarrow>
   connect env c = (socket c \<noteq> None, c, [TimeRead])"
  by (simp add: connect_def)

lemma connect_result_socket:
  "connect env c = (b, c', ev) \<Longrightarrow> b = (socket c' \<noteq> None)"
  by (auto simp: connect_def Let_def split: if_splits option.splits sum.splits)

lemma query_status_suppressed:
  "socket c = None \<Longrightarrow> clock env - last_connect_attempt c < RECONNECT_INTERVAL \<Longrightarrow>
   query_status env c p = (Inr None, c, [TimeRead])"
  by (simp add: query_status_def connect_suppressed)

lemma query_status_path_missing:
  assumes "socket c = None"
    and "socket_path c = Some sp"
    and "sp \<noteq> []"
    and "\<not> path_exists env sp"
    and "RECONNECT_INTERVAL \<le> clock env - last_connect_attempt c"
  shows "query_status env c p =
     (Inr None, c\<lparr>last_connect_attempt := clock env\<rparr>, [TimeRead, PathExists sp])"
  using assms by (simp add: query_status_def connect_def)

lemma run_queries_suppressed:
  "socket c = None \<Longrightarrow> within_window (last_connect_attempt c) qs \<Longrightarrow>
   run_queries c qs = (replicate (length qs) (Inr None), c, replicate (length qs) TimeRead)"
proof (induction qs)
  case Nil
  then show ?case by simp
next
  case (Cons q qs)
  obtain env p where q: "q = (env, p)"
    by (cases q) auto
  with Cons.prems have "query_status env c p = (Inr None, c, [TimeRead])"
    by (simp add: query_status_suppressed)
  with Cons q show ?case by simp
qed

text \<open>
  A client that holds a socket goes straight to the \<^verbatim>\<open>try\<close> block; the three ways the
  block can end after the request was encoded.
\<close>

lemma query_status_connected:
  "socket c = Some h \<Longrightarrow>
   query_status env c p =
     (case query_body env h p of
        (Inr r, ev) \<Rightarrow> (Inr r, c, ev)
      | (Inl e, ev) \<Rightarrow>
          if handled e then (Inr None, c\<lparr>socket := None\<rparr>, ev @ close_quietly env h)
          else (Inl e, c, ev))"
  by (simp add: query_status_def split: prod.splits sum.splits)

lemma query_status_response:
  assumes "socket c = Some h"
    and "utf8_encode (request p) = Inr data"
    and "sendall_result env h data = None"
    and "recv_result env h = Inr raw"
  shows "query_status env c p =
     (Inr (parse_status (splitlines (utf8_decode_ignore (take 1024 raw)))), c,
      [SendAll h data, Recv h 1024])"
  using assms by (simp add: query_status_connected query_body_def)

lemma query_status_send_failure:
  assumes "socket c = Some h"
    and "utf8_encode (request p) = Inr data"
    and "sendall_result env h data = Some e"
  shows "query_status env c p = (Inr None, c\<lparr>socket := None\<rparr>, [SendAll h data, Close h])"
  using assms
  by (simp add: query_status_connected query_body_def close_quietly_def split: option.split)

lemma query_status_recv_failure:
  assumes "socket c = Some h"
    and "utf8_encode (request p) = Inr data"
    and "sendall_result env h data = None"
    and "recv_result env h = Inl e"
  shows "query_status env c p =
     (Inr None, c\<lparr>socket := None\<rparr>, [SendAll h data, Recv h 1024, Close h])"
  using assms
  by (simp add: query_status_connected query_body_def close_quietly_def split: option.split)

text \<open>
  The \<^verbatim>\<open>try\<close> block touches only its socket and never depends on the clock or on the
  file system.
\<close>

lemma query_body_events:
  "list_all (on_handle h) (snd (query_body env h p))"
  by (simp add: query_body_def split: sum.split option.split)

lemma query_status_connected_events:
  assumes "socket c = Some h"
  shows "list_all (on_handle h) (snd (snd (query_status env c p)))"
proof (cases "query_body env h p")
  case (Pair r ev)
  with query_body_events [of h env p] have "list_all (on_handle h) ev"
    by simp
  with assms Pair show ?thesis
    by (cases r) (simp_all add: query_status_connected close_quietly_def split: option.split)
qed

lemma on_handle_not_connect_event:
  "list_all (on_handle h) evs \<Longrightarrow> \<not> list_ex is_connect_event evs"
proof (induction evs)
  case Nil
  then show ?case by simp
next
  case (Cons e evs)
  then show ?case by (cases e) simp_all
qed

lemma query_body_env_independent:
  "query_body (env\<lparr>clock := t, path_exists := f\<rparr>) h p = query_body env h p"
  by (simp add: query_body_def cong: sum.case_cong option.case_cong)

text \<open>
  The exceptions of the \<^verbatim>\<open>try\<close> block are the encoder's and the operating system's. The
  \<^verbatim>\<open>AttributeError\<close> of a missing socket cannot arise, and for a path without surrogates
  no exception leaves \<^verbatim>\<open>query_status\<close>, whatever the operating system does.
\<close>

lemma query_body_error:
  "query_body env h p = (Inl e, ev) \<Longrightarrow> e = UnicodeEncodeError \<or> handled e"
  by (auto simp: query_body_def split: sum.splits option.splits dest: utf8_encode_error)

lemma query_status_no_attribute_error:
  "fst (query_status env c p) \<noteq> Inl AttributeError"
proof (cases "socket c")
  case None
  obtain b c' ev where k: "connect env c = (b, c', ev)"
    by (cases "connect env c") auto
  then have "b = (socket c' \<noteq> None)"
    by (rule connect_result_socket)
  with None k show ?thesis
    by (auto simp: query_status_def split: prod.splits sum.splits option.splits
        dest: query_body_error)
next
  case (Some h)
  then show ?thesis
    by (auto simp: query_status_connected split: prod.splits sum.splits dest: query_body_error)
qed

lemma query_body_no_raise:
  "list_all (\<lambda>c. \<not> is_surrogate c) file_path \<Longrightarrow>
   (\<exists>r. fst (query_body env h file_path) = Inr r) \<or> (\<exists>e. fst (query_body env h file_path) = Inl (OSError e))"
  using request_encodable [of file_path]
  by (auto simp: query_body_def split: sum.splits option.splits)

lemma query_status_never_raises_encodable:
  assumes "list_all (\<lambda>c. \<not> is_surrogate c) file_path"
  shows "\<exists>r. fst (query_status env c file_path) = Inr r"
proof (cases "socket c")
  case None
  obtain b c' ev where k: "connect env c = (b, c', ev)"
    by (cases "connect env c") auto
  then have b: "b = (socket c' \<noteq> None)"
    by (rule connect_result_socket)
  show ?thesis
  proof (cases b)
    case False
    with None k show ?thesis by (simp add: query_status_def)
  next
    case True
    with b obtain h where h: "socket c' = Some h" by auto
    from query_body_no_raise [OF assms, of env h] None k True h show ?thesis
      by (auto simp: query_status_def split: prod.splits sum.splits)
  qed
next
  case (Some h)
  from query_body_no_raise [OF assms, of env h] Some show ?thesis
    by (auto simp: query_status_connected split: prod.splits sum.splits)
qed

section \<open>Worked examples\<close>

text \<open>The socket path with and without \<^verbatim>\<open>XDG_RUNTIME_DIR\<close>, and the bytes of a request.\<close>

lemma sample_path: "find_socket_path sample_proc = ascii ''/run/user/1000/aerocloud/socket''"
  by (simp add: find_socket_path_def sample_proc_def startswith_def endswith_def ascii_def)

lemma fallback_socket_path: "find_socket_path \<lparr>xdg_runtime_dir = None, uid = 1000\<rparr> = ascii ''/tmp/aerocloud-1000/socket''"
  by (simp add: find_socket_path_def ascii_def str_of_nat.simps)

lemma sample_request_encode: "utf8_encode (request (ascii ''/a'')) = Inr sample_request"
  by (simp add: request_def ascii_def ascii_bytes_def utf8_encode_cp_def sample_request_def)

lemma connected_client_socket: "socket connected_client = Some 7"
  by (simp add: connected_client_def)

text \<open>The lines the client sees in the sample replies.\<close>

lemma ok_reply_lines:
  "splitlines (utf8_decode_ignore (take 1024 ok_reply)) = [ascii ''STATUS:OK:synced'']"
proof -
  have "take 1024 ok_reply = ok_reply"
    by (simp add: ok_reply_def ascii_bytes_def)
  moreover have "utf8_decode_ignore ok_reply = ascii ''STATUS:OK:synced'' @ [0x0A]"
    by (simp add: ok_reply_def ascii_bytes_def utf8_decode_ignore_def utf8_decode_step_def ascii_def)
  moreover have "splitlines (ascii ''STATUS:OK:synced'' @ [0x0A]) = [ascii ''STATUS:OK:synced'']"
    by (simp add: splitlines_def is_linebreak_def ascii_def)
  ultimately show ?thesis by simp
qed

lemma two_status_reply_lines:
  "splitlines (utf8_decode_ignore (take 1024 two_status_reply)) =
     [ascii ''STATUS:SYNC:busy'', ascii ''STATUS:OK:synced'']"
proof -
  have "take 1024 two_status_reply = two_status_reply"
    by (simp add: two_status_reply_def ascii_bytes_def)
  moreover have "utf8_decode_ignore two_status_reply =
      ascii ''STATUS:SYNC:busy'' @ [0x0A] @ ascii ''STATUS:OK:synced'' @ [0x0A]"
    by (simp add: two_status_reply_def ascii_bytes_def utf8_decode_ignore_def utf8_decode_step_def
        ascii_def)
  moreover have "splitlines (ascii ''STATUS:SYNC:busy'' @ [0x0A] @ ascii ''STATUS:OK:synced'' @ [0x0A]) =
      [ascii ''STATUS:SYNC:busy'', ascii ''STATUS:OK:synced'']"
    by (simp add: splitlines_def is_linebreak_def ascii_def)
  ultimately show ?thesis by simp
qed

lemma garbage_reply_lines:
  "splitlines (utf8_decode_ignore (take 1024 garbage_reply)) = [ascii ''hello'', ascii ''STATUS:OK'']"
proof -
  have "take 1024 garbage_reply = garbage_reply"
    by (simp add: garbage_reply_def ascii_bytes_def)
  moreover have "utf8_decode_ignore garbage_reply =
      ascii ''hello'' @ [0x0A] @ ascii ''STATUS:OK'' @ [0x0A]"
    by (simp add: garbage_reply_def ascii_bytes_def utf8_decode_ignore_def utf8_decode_step_def
        ascii_def)
  moreover have "splitlines (ascii ''hello'' @ [0x0A] @ ascii ''STATUS:OK'' @ [0x0A]) =
      [ascii ''hello'', ascii ''STATUS:OK'']"
    by (simp add: splitlines_def is_linebreak_def ascii_def)
  ultimately show ?thesis by simp
qed

lemma noisy_reply_lines:
  "splitlines (utf8_decode_ignore (take 1024 noisy_reply)) =
     [ascii ''hello'', ascii ''STATUS:OK'', ascii ''STATUS:NEW:x:y'', ascii ''STATUS:OK:synced'']"
proof -
  have "take 1024 noisy_reply = noisy_reply"
    by (simp add: noisy_reply_def ascii_bytes_def)
  moreover have "utf8_decode_ignore noisy_reply =
      ascii ''hello'' @ [0x0A] @ ascii ''STATUS:OK'' @ [0x0A] @ ascii ''STATUS:NEW:x:y'' @ [0x0D, 0x0A]
        @ ascii ''STATUS:OK:synced'' @ [0x0A]"
    by (simp add: noisy_reply_def ascii_bytes_def utf8_decode_ignore_def utf8_decode_step_def
        ascii_def)
  moreover have "splitlines (ascii ''hello'' @ [0x0A] @ ascii ''STATUS:OK'' @ [0x0A]
        @ ascii ''STATUS:NEW:x:y'' @ [0x0D, 0x0A] @ ascii ''STATUS:OK:synced'' @ [0x0A]) =
      [ascii ''hello'', ascii ''STATUS:OK'', ascii ''STATUS:NEW:x:y'', ascii ''STATUS:OK:synced'']"
    by (simp add: splitlines_def is_linebreak_def ascii_def)
  ultimately show ?thesis by simp
qed

lemma no_status_in_garbage: "\<not> list_ex yields_status [ascii ''hello'', ascii ''STATUS:OK'']"
  by (simp add: yields_status_def startswith_def ascii_def split_sep_2)

lemma query_status_ok_reply:
  "query_status (daemon_up t ok_reply) connected_client (ascii ''/a'') =
     (Inr (Some (ascii ''OK'')), connected_client, [SendAll 7 sample_request, Recv 7 1024])"
proof -
  have l: "splitlines (utf8_decode_ignore (take 1024 ok_reply)) =
      [] @ (ascii ''STATUS:'' @ ascii ''OK'' @ [0x3A] @ ascii ''synced'') # []"
    by (simp add: ok_reply_lines) (simp add: ascii_def)
  have "parse_status (splitlines (utf8_decode_ignore (take 1024 ok_reply))) = Some (ascii ''OK'')"
    unfolding l using status_line_yields [of "ascii ''OK''" "ascii ''synced''"]
    by (simp add: parse_status_find) (simp add: ascii_def)
  then show ?thesis
    using query_status_response [OF connected_client_socket sample_request_encode,
        of "daemon_up t ok_reply" ok_reply]
    by (simp add: daemon_up_def)
qed

section \<open>The client's claims\<close>

text \<open>
  Claim C1. Every transport failure during send or receive makes \<^verbatim>\<open>query_status\<close> close
  and discard the socket and return absent, and no failure ever reaches the caller as an
  exception. The first half is \<open>query_status_send_failure\<close> and
  \<open>query_status_recv_failure\<close>. The second half fails: the request is encoded inside the
  \<^verbatim>\<open>try\<close> block, the \<^verbatim>\<open>except\<close> clause catches \<^verbatim>\<open>OSError\<close> only, and so for a client that
  holds a socket and a file path with a surrogate code point (the name of a file whose
  bytes are not UTF-8) the call ends with \<^verbatim>\<open>UnicodeEncodeError\<close>, before anything is sent
  and with the client unchanged.
\<close>

theorem query_status_surrogate_path_raises:
  assumes "socket c = Some h"
    and "cp \<in> set file_path"
    and "is_surrogate cp"
  shows "query_status env c file_path = (Inl UnicodeEncodeError, c, [])"
  using assms(1) request_encode_surrogate [OF assms(2,3)]
  by (simp add: query_status_connected query_body_def)

theorem query_status_surrogate_path_raises_witness:
  "socket connected_client = Some 7 \<and>
   0xDCFF \<in> set (ascii ''/home/u/'' @ [0xDCFF]) \<and> is_surrogate 0xDCFF \<and>
   query_status (daemon_up 1000 ok_reply) connected_client (ascii ''/home/u/'' @ [0xDCFF]) =
     (Inl UnicodeEncodeError, connected_client, [])"
proof -
  have h2: "0xDCFF \<in> set (ascii ''/home/u/'' @ [0xDCFF])"
    by simp
  have h3: "is_surrogate 0xDCFF"
    by (simp add: is_surrogate_def)
  from query_status_surrogate_path_raises [OF connected_client_socket h2 h3, of "daemon_up 1000 ok_reply"]
    connected_client_socket h2 h3
  show ?thesis by simp
qed

text \<open>
  Claim C2, as stated, fails: a response can contain the line \<^verbatim>\<open>STATUS:OK:synced\<close> and
  \<^verbatim>\<open>query_status\<close> still return another status, because the first accepted line decides.
  Here the reply is \<^verbatim>\<open>STATUS:SYNC:busy\<close> followed by \<^verbatim>\<open>STATUS:OK:synced\<close> and the result
  is \<^verbatim>\<open>SYNC\<close>.
\<close>

theorem later_status_line_counterexample:
  "ascii ''STATUS:OK:synced'' \<in> set (splitlines (utf8_decode_ignore (take 1024 two_status_reply))) \<and>
   socket connected_client = Some 7 \<and>
   query_status (daemon_up 1000 two_status_reply) connected_client (ascii ''/a'') =
     (Inr (Some (ascii ''SYNC'')), connected_client, [SendAll 7 sample_request, Recv 7 1024]) \<and>
   ascii ''SYNC'' \<noteq> ascii ''OK''"
proof -
  have p: "parse_status [ascii ''STATUS:SYNC:busy'', ascii ''STATUS:OK:synced''] = Some (ascii ''SYNC'')"
    by (simp add: startswith_def ascii_def split_sep_2 Let_def)
  have q: "query_status (daemon_up 1000 two_status_reply) connected_client (ascii ''/a'') =
     (Inr (Some (ascii ''SYNC'')), connected_client, [SendAll 7 sample_request, Recv 7 1024])"
    using query_status_response [OF connected_client_socket sample_request_encode,
        of "daemon_up 1000 two_status_reply" two_status_reply]
    by (simp add: daemon_up_def two_status_reply_lines p del: parse_status.simps)
  have n: "ascii ''SYNC'' \<noteq> ascii ''OK''"
    by (simp add: ascii_def)
  from q n connected_client_socket show ?thesis
    by (simp add: two_status_reply_lines)
qed

text \<open>
  Claim C2, amended. For a client that holds a socket, whose request is sent and answered:
  when the first response line that starts with \<^verbatim>\<open>STATUS:\<close> and has three colon-separated
  parts is \<^verbatim>\<open>STATUS:<code>:<extra>\<close>, \<^verbatim>\<open>query_status\<close> returns \<^verbatim>\<open><code>\<close> and leaves the
  client as it was. (The lines before it are the ones that are not accepted; the lines
  after it are never looked at.)
\<close>

theorem query_status_first_status_line:
  assumes "socket c = Some h"
    and "utf8_encode (request file_path) = Inr data"
    and "sendall_result env h data = None"
    and "recv_result env h = Inr raw"
    and "splitlines (utf8_decode_ignore (take 1024 raw)) =
           pre @ (ascii ''STATUS:'' @ code @ [0x3A] @ extra) # post"
    and "\<not> list_ex yields_status pre"
    and "0x3A \<notin> set code"
  shows "query_status env c file_path = (Inr (Some code), c, [SendAll h data, Recv h 1024])"
proof -
  let ?line = "ascii ''STATUS:'' @ code @ [0x3A] @ extra"
  have "parse_status (pre @ ?line # post) = parse_status (?line # post)"
    using assms(6) by (rule parse_status_skip)
  also have "\<dots> = Some code"
    using status_line_yields [OF assms(7), of extra]
    by (simp add: parse_status_find)
  finally show ?thesis
    using query_status_response [OF assms(1-4)] assms(5) by simp
qed

theorem query_status_first_status_line_witness:
  "socket connected_client = Some 7 \<and>
   utf8_encode (request (ascii ''/a'')) = Inr sample_request \<and>
   splitlines (utf8_decode_ignore (take 1024 noisy_reply)) =
     [ascii ''hello'', ascii ''STATUS:OK''] @
     (ascii ''STATUS:'' @ ascii ''NEW'' @ [0x3A] @ ascii ''x:y'') # [ascii ''STATUS:OK:synced''] \<and>
   \<not> list_ex yields_status [ascii ''hello'', ascii ''STATUS:OK''] \<and>
   0x3A \<notin> set (ascii ''NEW'') \<and>
   query_status (daemon_up 1000 noisy_reply) connected_client (ascii ''/a'') =
     (Inr (Some (ascii ''NEW'')), connected_client, [SendAll 7 sample_request, Recv 7 1024])"
proof -
  have h3: "sendall_result (daemon_up 1000 noisy_reply) 7 sample_request = None"
    by (simp add: daemon_up_def)
  have h4: "recv_result (daemon_up 1000 noisy_reply) 7 = Inr noisy_reply"
    by (simp add: daemon_up_def)
  have h5: "splitlines (utf8_decode_ignore (take 1024 noisy_reply)) =
     [ascii ''hello'', ascii ''STATUS:OK''] @
     (ascii ''STATUS:'' @ ascii ''NEW'' @ [0x3A] @ ascii ''x:y'') # [ascii ''STATUS:OK:synced'']"
    by (simp add: noisy_reply_lines) (simp add: ascii_def)
  have h7: "0x3A \<notin> set (ascii ''NEW'')"
    by (simp add: ascii_def)
  from query_status_first_status_line [OF connected_client_socket sample_request_encode h3 h4 h5
      no_status_in_garbage h7]
    connected_client_socket sample_request_encode h5 no_status_in_garbage h7
  show ?thesis by simp
qed

text \<open>
  Claim C5. The client holds no socket and its socket path does not exist when a
  connection attempt is made at clock reading \<open>clock env0\<close>. Then that call and every
  later call whose clock reading is less than 30 seconds after it return absent; the only
  events are the clock readings and the one check of the path, so no socket is created,
  and the client still has no socket. (Nothing is assumed about the later environments:
  the socket file may have appeared in the meantime.)
\<close>

theorem query_status_socket_missing_window:
  assumes "socket c = None"
    and "socket_path c = Some sp"
    and "sp \<noteq> []"
    and "\<not> path_exists env0 sp"
    and "RECONNECT_INTERVAL \<le> clock env0 - last_connect_attempt c"
    and "within_window (clock env0) qs"
  shows "run_queries c ((env0, p0) # qs) =
     (replicate (Suc (length qs)) (Inr None),
      c\<lparr>last_connect_attempt := clock env0\<rparr>,
      [TimeRead, PathExists sp] @ replicate (length qs) TimeRead)"
proof -
  let ?c1 = "c\<lparr>last_connect_attempt := clock env0\<rparr>"
  have first: "query_status env0 c p0 = (Inr None, ?c1, [TimeRead, PathExists sp])"
    using assms(1-5) by (rule query_status_path_missing)
  have rest: "run_queries ?c1 qs =
      (replicate (length qs) (Inr None), ?c1, replicate (length qs) TimeRead)"
    using assms(1,6) by (simp add: run_queries_suppressed)
  from first rest show ?thesis by simp
qed

theorem query_status_socket_missing_window_witness:
  "socket (client_init sample_proc) = None \<and>
   socket_path (client_init sample_proc) = Some (ascii ''/run/user/1000/aerocloud/socket'') \<and>
   \<not> path_exists (daemon_absent 1000) (ascii ''/run/user/1000/aerocloud/socket'') \<and>
   RECONNECT_INTERVAL \<le> clock (daemon_absent 1000) - last_connect_attempt (client_init sample_proc) \<and>
   within_window (clock (daemon_absent 1000))
     [(daemon_up 1010 ok_reply, ascii ''/a''), (daemon_up 1029.5 ok_reply, ascii ''/b'')] \<and>
   run_queries (client_init sample_proc)
     [(daemon_absent 1000, ascii ''/a''), (daemon_up 1010 ok_reply, ascii ''/a''),
      (daemon_up 1029.5 ok_reply, ascii ''/b'')] =
     ([Inr None, Inr None, Inr None],
      (client_init sample_proc)\<lparr>last_connect_attempt := 1000\<rparr>,
      [TimeRead, PathExists (ascii ''/run/user/1000/aerocloud/socket''), TimeRead, TimeRead])"
proof -
  let ?sp = "ascii ''/run/user/1000/aerocloud/socket''"
  have h1: "socket (client_init sample_proc) = None"
    by (simp add: client_init_def)
  have h2: "socket_path (client_init sample_proc) = Some ?sp"
    by (simp add: client_init_def sample_path)
  have h3: "?sp \<noteq> []"
    by (simp add: ascii_def)
  have h4: "\<not> path_exists (daemon_absent 1000) ?sp"
    by (simp add: daemon_absent_def)
  have h5: "RECONNECT_INTERVAL \<le>
      clock (daemon_absent 1000) - last_connect_attempt (client_init sample_proc)"
    by (simp add: RECONNECT_INTERVAL_def daemon_absent_def client_init_def)
  have h6: "within_window (clock (daemon_absent 1000))
     [(daemon_up 1010 ok_reply, ascii ''/a''), (daemon_up 1029.5 ok_reply, ascii ''/b'')]"
    by (simp add: RECONNECT_INTERVAL_def daemon_absent_def daemon_up_def)
  have c: "clock (daemon_absent 1000) = 1000"
    by (simp add: daemon_absent_def)
  from query_status_socket_missing_window [OF h1 h2 h3 h4 h5 h6, of "ascii ''/a''"] h1 h2 h4 h5 h6
  show ?thesis by (simp add: c numeral_2_eq_2)
qed

text \<open>
  Claim C6. A connection attempt less than \<^verbatim>\<open>RECONNECT_INTERVAL\<close> after the previous
  attempt (the last one that was not suppressed: its clock reading is what the client
  records) reads the clock and does nothing else: no check of the path, no socket, no
  connect, and the client (timestamp and socket) is unchanged. This holds whatever the
  previous attempt did: after any attempt \<open>connect env0 c0\<close> that was not suppressed, an
  attempt within the interval returns what the previous one returned and changes
  nothing.
\<close>

theorem connect_suppressed_within_interval:
  "(clock env - last_connect_attempt c < RECONNECT_INTERVAL \<longrightarrow>
      connect env c = (socket c \<noteq> None, c, [TimeRead])) \<and>
   (RECONNECT_INTERVAL \<le> clock env0 - last_connect_attempt c0 \<and>
    clock env1 - clock env0 < RECONNECT_INTERVAL \<longrightarrow>
      (case connect env0 c0 of
         (b, c1, ev) \<Rightarrow>
           last_connect_attempt c1 = clock env0 \<and> connect env1 c1 = (b, c1, [TimeRead])))"
proof (intro conjI impI)
  assume "clock env - last_connect_attempt c < RECONNECT_INTERVAL"
  then show "connect env c = (socket c \<noteq> None, c, [TimeRead])"
    by (rule connect_suppressed)
next
  assume a: "RECONNECT_INTERVAL \<le> clock env0 - last_connect_attempt c0 \<and>
    clock env1 - clock env0 < RECONNECT_INTERVAL"
  obtain b c1 ev where k: "connect env0 c0 = (b, c1, ev)"
    by (cases "connect env0 c0") auto
  then have b: "b = (socket c1 \<noteq> None)"
    by (rule connect_result_socket)
  from a k have l: "last_connect_attempt c1 = clock env0"
    by (auto simp: connect_def Let_def split: if_splits option.splits sum.splits)
  with a have "connect env1 c1 = (socket c1 \<noteq> None, c1, [TimeRead])"
    by (simp add: connect_suppressed)
  with b l k show "case connect env0 c0 of
         (b, c1, ev) \<Rightarrow>
           last_connect_attempt c1 = clock env0 \<and> connect env1 c1 = (b, c1, [TimeRead])"
    by simp
qed

theorem connect_suppressed_within_interval_witness:
  "clock (daemon_up 1000 ok_reply) - last_connect_attempt connected_client < RECONNECT_INTERVAL \<and>
   connect (daemon_up 1000 ok_reply) connected_client = (True, connected_client, [TimeRead]) \<and>
   RECONNECT_INTERVAL \<le> clock (daemon_absent 1000) - last_connect_attempt (client_init sample_proc) \<and>
   clock (daemon_up 1010 ok_reply) - clock (daemon_absent 1000) < RECONNECT_INTERVAL \<and>
   connect (daemon_up 1010 ok_reply) (fst (snd (connect (daemon_absent 1000) (client_init sample_proc))))
     = (False, (client_init sample_proc)\<lparr>last_connect_attempt := 1000\<rparr>, [TimeRead])"
proof -
  have h1: "clock (daemon_up 1000 ok_reply) - last_connect_attempt connected_client
      < RECONNECT_INTERVAL"
    by (simp add: RECONNECT_INTERVAL_def daemon_up_def connected_client_def)
  have h2: "RECONNECT_INTERVAL \<le>
      clock (daemon_absent 1000) - last_connect_attempt (client_init sample_proc)"
    by (simp add: RECONNECT_INTERVAL_def daemon_absent_def client_init_def)
  have h3: "clock (daemon_up 1010 ok_reply) - clock (daemon_absent 1000) < RECONNECT_INTERVAL"
    by (simp add: RECONNECT_INTERVAL_def daemon_absent_def daemon_up_def)
  have k: "connect (daemon_absent 1000) (client_init sample_proc) =
      (False, (client_init sample_proc)\<lparr>last_connect_attempt := 1000\<rparr>,
       [TimeRead, PathExists (ascii ''/run/user/1000/aerocloud/socket'')])"
    using h2 by (simp add: connect_def client_init_def sample_path daemon_absent_def ascii_def)
  from connect_suppressed_within_interval [of "daemon_up 1000 ok_reply" connected_client
      "daemon_absent 1000" "client_init sample_proc" "daemon_up 1010 ok_reply"] h1 h2 h3
  show ?thesis by (simp add: k connected_client_socket)
qed

text \<open>
  Claim C7. For a client that holds a socket, whose request is sent and answered: if no
  line of the response is accepted as a status, \<^verbatim>\<open>query_status\<close> returns absent, the client
  is unchanged and the socket is neither closed nor dropped; the next call then works on
  the same socket and on nothing else.
\<close>

theorem query_status_protocol_miss:
  assumes "socket c = Some h"
    and "utf8_encode (request file_path) = Inr data"
    and "sendall_result env h data = None"
    and "recv_result env h = Inr raw"
    and "\<not> list_ex yields_status (splitlines (utf8_decode_ignore (take 1024 raw)))"
  shows "query_status env c file_path = (Inr None, c, [SendAll h data, Recv h 1024]) \<and>
         run_queries c [(env, file_path), (env', file_path')] =
           (case query_status env' c file_path' of
              (r, c', ev) \<Rightarrow> ([Inr None, r], c', [SendAll h data, Recv h 1024] @ ev)) \<and>
         list_all (on_handle h) (snd (snd (query_status env' c file_path')))"
proof -
  have "parse_status (splitlines (utf8_decode_ignore (take 1024 raw))) = None"
    using parse_status_skip [OF assms(5), of "[]"] by simp
  with query_status_response [OF assms(1-4)]
  have q: "query_status env c file_path = (Inr None, c, [SendAll h data, Recv h 1024])"
    by simp
  have ev: "list_all (on_handle h) (snd (snd (query_status env' c file_path')))"
    using assms(1) by (rule query_status_connected_events)
  from q ev show ?thesis
    by (simp split: prod.splits)
qed

theorem query_status_protocol_miss_witness:
  "socket connected_client = Some 7 \<and>
   \<not> list_ex yields_status (splitlines (utf8_decode_ignore (take 1024 garbage_reply))) \<and>
   query_status (daemon_up 1000 garbage_reply) connected_client (ascii ''/a'') =
     (Inr None, connected_client, [SendAll 7 sample_request, Recv 7 1024]) \<and>
   run_queries connected_client
     [(daemon_up 1000 garbage_reply, ascii ''/a''), (daemon_up 1001 ok_reply, ascii ''/a'')] =
     ([Inr None, Inr (Some (ascii ''OK''))], connected_client,
      [SendAll 7 sample_request, Recv 7 1024, SendAll 7 sample_request, Recv 7 1024])"
proof -
  have h3: "sendall_result (daemon_up 1000 garbage_reply) 7 sample_request = None"
    by (simp add: daemon_up_def)
  have h4: "recv_result (daemon_up 1000 garbage_reply) 7 = Inr garbage_reply"
    by (simp add: daemon_up_def)
  have h5: "\<not> list_ex yields_status (splitlines (utf8_decode_ignore (take 1024 garbage_reply)))"
    unfolding garbage_reply_lines by (rule no_status_in_garbage)
  from query_status_protocol_miss [OF connected_client_socket sample_request_encode h3 h4 h5,
      of "daemon_up 1001 ok_reply" "ascii ''/a''"]
    connected_client_socket h5
  show ?thesis by (simp add: query_status_ok_reply)
qed

text \<open>
  Claim C8. While the client holds a socket \<open>h\<close>, a call of \<^verbatim>\<open>query_status\<close> does not
  depend on the clock, on the file system or on the recorded time of the last attempt;
  all its events are operations on \<open>h\<close>, none is a clock reading, a path check or a
  connection; the recorded time and the socket path are not written; and when the
  request can be encoded the first thing the call does is send it on \<open>h\<close>. Only a client
  without a socket consults the timer: its call starts by reading the clock.
\<close>

theorem query_status_live_handle:
  "(socket c = Some h \<longrightarrow>
      query_status (env\<lparr>clock := t, path_exists := f\<rparr>) (c\<lparr>last_connect_attempt := l\<rparr>) p =
        (case query_status env c p of (r, c', ev) \<Rightarrow> (r, c'\<lparr>last_connect_attempt := l\<rparr>, ev)) \<and>
      list_all (on_handle h) (snd (snd (query_status env c p))) \<and>
      \<not> list_ex is_connect_event (snd (snd (query_status env c p))) \<and>
      last_connect_attempt (fst (snd (query_status env c p))) = last_connect_attempt c \<and>
      socket_path (fst (snd (query_status env c p))) = socket_path c \<and>
      (case utf8_encode (request p) of
         Inl e \<Rightarrow> snd (snd (query_status env c p)) = []
       | Inr data \<Rightarrow> take 1 (snd (snd (query_status env c p))) = [SendAll h data])) \<and>
   (socket c0 = None \<longrightarrow> take 1 (snd (snd (query_status env c0 p))) = [TimeRead])"
proof (intro conjI impI)
  assume s: "socket c = Some h"
  obtain r ev where b: "query_body env h p = (r, ev)"
    by (cases "query_body env h p") auto
  from s b show "query_status (env\<lparr>clock := t, path_exists := f\<rparr>) (c\<lparr>last_connect_attempt := l\<rparr>) p =
        (case query_status env c p of (r, c', ev) \<Rightarrow> (r, c'\<lparr>last_connect_attempt := l\<rparr>, ev))"
    by (cases r) (simp_all add: query_status_def query_body_env_independent close_quietly_def)
  from s show e: "list_all (on_handle h) (snd (snd (query_status env c p)))"
    by (rule query_status_connected_events)
  then show "\<not> list_ex is_connect_event (snd (snd (query_status env c p)))"
    by (rule on_handle_not_connect_event)
  from s b show "last_connect_attempt (fst (snd (query_status env c p))) = last_connect_attempt c"
    by (cases r) (simp_all add: query_status_connected)
  from s b show "socket_path (fst (snd (query_status env c p))) = socket_path c"
    by (cases r) (simp_all add: query_status_connected)
  from s show "case utf8_encode (request p) of
         Inl e \<Rightarrow> snd (snd (query_status env c p)) = []
       | Inr data \<Rightarrow> take 1 (snd (snd (query_status env c p))) = [SendAll h data]"
    by (auto simp: query_status_connected query_body_def close_quietly_def
        split: sum.splits option.splits dest: utf8_encode_error)
next
  assume "socket c0 = None"
  then show "take 1 (snd (snd (query_status env c0 p))) = [TimeRead]"
    by (auto simp: query_status_def connect_def Let_def close_quietly_def
        split: prod.splits sum.splits option.splits if_splits)
qed

theorem query_status_live_handle_witness:
  "socket connected_client = Some 7 \<and>
   query_status ((daemon_up 1000 ok_reply)\<lparr>clock := 5000, path_exists := (\<lambda>p. False)\<rparr>)
      (connected_client\<lparr>last_connect_attempt := 4999\<rparr>) (ascii ''/a'') =
     (Inr (Some (ascii ''OK'')), connected_client\<lparr>last_connect_attempt := 4999\<rparr>,
      [SendAll 7 sample_request, Recv 7 1024]) \<and>
   socket (client_init sample_proc) = None \<and>
   take 1 (snd (snd (query_status (daemon_up 1000 ok_reply) (client_init sample_proc) (ascii ''/a''))))
     = [TimeRead]"
proof -
  have h2: "socket (client_init sample_proc) = None"
    by (simp add: client_init_def)
  from query_status_live_handle [where c = connected_client and h = 7
      and env = "daemon_up 1000 ok_reply" and t = 5000 and f = "\<lambda>p. False" and l = 4999
      and p = "ascii ''/a''" and ?c0.0 = "client_init sample_proc"]
    connected_client_socket h2
  show ?thesis by (simp add: query_status_ok_reply)
qed

text \<open>
  Claim C10. A line that starts with \<^verbatim>\<open>STATUS:\<close> and splits into fewer than three parts
  is not accepted: the loop goes on and returns the status code of the first later line
  that starts with \<^verbatim>\<open>STATUS:\<close> and has three parts, or absent when there is none. A line
  \<^verbatim>\<open>STATUS:<rest>\<close> with no further colon (\<^verbatim>\<open>STATUS:OK\<close>) has two parts; \<^verbatim>\<open>STATUS:OK:\<close>,
  with an empty third part, is accepted and gives \<^verbatim>\<open>OK\<close>.
\<close>

theorem parse_status_short_line:
  "(startswith line (ascii ''STATUS:'') \<and> length (split_sep 0x3A 2 line) < 3 \<and>
    \<not> list_ex yields_status pre \<longrightarrow>
      parse_status (pre @ line # post) =
        (case List.find yields_status post of None \<Rightarrow> None | Some l \<Rightarrow> Some (status_code l))) \<and>
   (0x3A \<notin> set rest \<longrightarrow> length (split_sep 0x3A 2 (ascii ''STATUS:'' @ rest)) = 2) \<and>
   parse_status (ascii ''STATUS:OK:'' # post) = Some (ascii ''OK'')"
proof (intro conjI impI)
  assume a: "startswith line (ascii ''STATUS:'') \<and> length (split_sep 0x3A 2 line) < 3 \<and>
    \<not> list_ex yields_status pre"
  then have "\<not> list_ex yields_status (pre @ [line])"
    by (simp add: yields_status_def)
  then have "parse_status ((pre @ [line]) @ post) = parse_status post"
    by (rule parse_status_skip)
  then show "parse_status (pre @ line # post) =
        (case List.find yields_status post of None \<Rightarrow> None | Some l \<Rightarrow> Some (status_code l))"
    by (simp add: parse_status_find [of post])
next
  assume "0x3A \<notin> set rest"
  then show "length (split_sep 0x3A 2 (ascii ''STATUS:'' @ rest)) = 2"
    by (simp add: short_status_line)
next
  have "parse_status ((ascii ''STATUS:'' @ ascii ''OK'' @ [0x3A] @ []) # post) = Some (ascii ''OK'')"
    using status_line_yields [of "ascii ''OK''" "[]"]
    by (simp add: parse_status_find) (simp add: ascii_def)
  then show "parse_status (ascii ''STATUS:OK:'' # post) = Some (ascii ''OK'')"
    by (simp add: ascii_def)
qed

theorem parse_status_short_line_witness:
  "startswith (ascii ''STATUS:OK'') (ascii ''STATUS:'') \<and>
   length (split_sep 0x3A 2 (ascii ''STATUS:OK'')) < 3 \<and>
   \<not> list_ex yields_status [ascii ''hello''] \<and>
   0x3A \<notin> set (ascii ''OK'') \<and>
   parse_status ([ascii ''hello''] @ ascii ''STATUS:OK'' # [ascii ''x:y:z'', ascii ''STATUS:SYNC:a:b''])
     = Some (ascii ''SYNC'')"
proof -
  have h1: "startswith (ascii ''STATUS:OK'') (ascii ''STATUS:'')"
    by (simp add: startswith_def ascii_def)
  have h2: "length (split_sep 0x3A 2 (ascii ''STATUS:OK'')) < 3"
    by (simp add: split_sep_2 ascii_def)
  have h3: "\<not> list_ex yields_status [ascii ''hello'']"
    by (simp add: yields_status_def startswith_def ascii_def)
  have h4: "0x3A \<notin> set (ascii ''OK'')"
    by (simp add: ascii_def)
  have f: "List.find yields_status [ascii ''x:y:z'', ascii ''STATUS:SYNC:a:b''] =
      Some (ascii ''STATUS:SYNC:a:b'')"
    by (simp add: yields_status_def startswith_def ascii_def split_sep_2)
  have s: "status_code (ascii ''STATUS:SYNC:a:b'') = ascii ''SYNC''"
    by (simp add: status_code_def ascii_def split_sep_2)
  from parse_status_short_line [of "ascii ''STATUS:OK''" "[ascii ''hello'']"
      "[ascii ''x:y:z'', ascii ''STATUS:SYNC:a:b'']" "ascii ''OK''"] h1 h2 h3
  have e: "parse_status ([ascii ''hello''] @ ascii ''STATUS:OK'' #
        [ascii ''x:y:z'', ascii ''STATUS:SYNC:a:b'']) =
      (case List.find yields_status [ascii ''x:y:z'', ascii ''STATUS:SYNC:a:b''] of
         None \<Rightarrow> None | Some l \<Rightarrow> Some (status_code l))"
    by blast
  have "parse_status ([ascii ''hello''] @ ascii ''STATUS:OK'' #
        [ascii ''x:y:z'', ascii ''STATUS:SYNC:a:b'']) = Some (ascii ''SYNC'')"
    by (simp only: e f s option.case)
  with h1 h2 h3 h4 show ?thesis
    by (simp only: simp_thms)
qed

end
